theory Spec2Isabelle
  imports Main "HOL-Library.Word"
begin

unbundle bit_operations_syntax

section \<open>The ref binding of the runtime (packages/runtime/src/binding/ref.ts)\<close>

text \<open>
  The class \<^verbatim>\<open>Ref\<close> wires a source expression, a target and a service locator to a
  scope. Its methods \<^verbatim>\<open>$bind\<close> and \<^verbatim>\<open>$unbind\<close> mutate the binding's own fields and
  call the methods of the source expression, which read and write the application's
  objects. The embedding makes both explicit:
  \<^item> the binding is a record of its fields;
  \<^item> everything outside the binding that an expression may read or write is a heap of
    an arbitrary type \<open>'w\<close>;
  \<^item> an expression is a record of its methods, each a function from the heap to a
    completion: it either returns a result and a heap, or throws an error and leaves a heap;
  \<^item> every call made on the expression is appended to a log, together with the fields
    the binding had at the moment of the call;
  \<^item> a method body is the list of its top-level statements, run in order until one throws.

  Objects are represented by their identity, so that \<^verbatim>\<open>===\<close> on objects is equality;
  a value is \<^verbatim>\<open>undefined\<close>, \<^verbatim>\<open>null\<close> or an object. \<^verbatim>\<open>$bind\<close> stores the
  scope it is passed without a check, so its scope argument is any value. The methods of
  an expression receive the binding (the hooks get \<^verbatim>\<open>this\<close>) as a value: an
  expression can read the binding's fields, it does not write them. The flags are an
  opaque number that is only passed on.
\<close>

subsection \<open>Values, lifecycle state, completions\<close>

type_synonym obj = nat

datatype val = Undefined | Null | Obj obj

type_synonym BindingFlags = nat

type_synonym LifecycleState = "32 word"

text \<open>
  Modelled from the spec: the constants of \<^verbatim>\<open>LifecycleState\<close> (lifecycle-state.ts is not
  among the sources): \<^verbatim>\<open>none=0, isBinding=1, isBound=2, isUnbinding=4\<close>.
\<close>

definition none :: LifecycleState where
  "none = 0"

definition isBinding :: LifecycleState where
  "isBinding = 1"

definition isBound :: LifecycleState where
  "isBound = 2"

definition isUnbinding :: LifecycleState where
  "isUnbinding = 4"

datatype ('e, 'r, 's) completion =
    Return (result: 'r) (after: 's)
  | Throw (thrown: 'e) (after: 's)

subsection \<open>The binding and its source expression\<close>

text \<open>
  The fields of \<^verbatim>\<open>Ref\<close> other than the expression. \<^verbatim>\<open>$nextBindable\<close>,
  \<^verbatim>\<open>$prevBindable\<close> and \<^verbatim>\<open>$state\<close> have initialisers; \<^verbatim>\<open>$scope\<close> is declared
  without one.
\<close>

record binding_fields =
  nextBindable :: val
  prevBindable :: val
  state :: LifecycleState
  scope :: val
  target :: obj
  locator :: obj

text \<open>
  The contract of an expression node: \<^verbatim>\<open>evaluate(flags, scope, locator)\<close>,
  \<^verbatim>\<open>assign(flags, scope, locator, value)\<close> and the optional hooks
  \<^verbatim>\<open>bind(flags, scope, binding)\<close> and \<^verbatim>\<open>unbind(flags, scope, binding)\<close>.
\<close>

record ('e, 'w) expression =
  evaluate :: "BindingFlags \<Rightarrow> val \<Rightarrow> obj \<Rightarrow> 'w \<Rightarrow> ('e, val, 'w) completion"
  assign :: "BindingFlags \<Rightarrow> val \<Rightarrow> obj \<Rightarrow> val \<Rightarrow> 'w \<Rightarrow> ('e, unit, 'w) completion"
  bind :: "(BindingFlags \<Rightarrow> val \<Rightarrow> binding_fields \<Rightarrow> 'w \<Rightarrow> ('e, unit, 'w) completion) option"
  unbind :: "(BindingFlags \<Rightarrow> val \<Rightarrow> binding_fields \<Rightarrow> 'w \<Rightarrow> ('e, unit, 'w) completion) option"

text \<open>
  Modelled from the spec: \<^verbatim>\<open>hasBind\<close> and \<^verbatim>\<open>hasUnbind\<close> (ast.ts is not among the
  sources) tell whether the expression "exposes a bind hook" and an unbind hook.
\<close>

definition hasBind :: "('e, 'w) expression \<Rightarrow> bool" where
  "hasBind e = (bind e \<noteq> None)"

definition hasUnbind :: "('e, 'w) expression \<Rightarrow> bool" where
  "hasUnbind e = (unbind e \<noteq> None)"

record ('e, 'w) Ref = binding_fields +
  sourceExpression :: "('e, 'w) expression"

text \<open>The constructor: \<^verbatim>\<open>new Ref(sourceExpression, target, locator)\<close>.\<close>

definition new_Ref :: "('e, 'w) expression \<Rightarrow> obj \<Rightarrow> obj \<Rightarrow> ('e, 'w) Ref" where
  "new_Ref e t l =
     \<lparr>nextBindable = Null, prevBindable = Null, state = none, scope = Undefined,
      target = t, locator = l, sourceExpression = e\<rparr>"

subsection \<open>The machine: one binding, the heap, the log of expression calls\<close>

datatype call =
    Evaluate BindingFlags val obj
  | Assign BindingFlags val obj val
  | Bind BindingFlags val
  | Unbind BindingFlags val

record ('e, 'w) machine =
  self :: "('e, 'w) Ref"
  heap :: "'w"
  calls :: "(call \<times> binding_fields) list"

type_synonym ('e, 'w) stmt = "('e, 'w) machine \<Rightarrow> ('e, unit, ('e, 'w) machine) completion"

text \<open>A statement that assigns to fields of \<^verbatim>\<open>this\<close>.\<close>

definition update_self :: "(('e, 'w) Ref \<Rightarrow> ('e, 'w) Ref) \<Rightarrow> ('e, 'w) stmt" where
  "update_self g m = Return () (m\<lparr>self := g (self m)\<rparr>)"

text \<open>
  A call of an expression method: it is logged with the binding's fields at that moment,
  runs on the heap, and its completion (normal or abrupt) is the completion of the call.
\<close>

definition invoke ::
  "call \<Rightarrow> ('w \<Rightarrow> ('e, 'r, 'w) completion) \<Rightarrow> ('e, 'w) machine
     \<Rightarrow> ('e, 'r, ('e, 'w) machine) completion" where
  "invoke c meth m =
     (let m' = m\<lparr>calls := calls m @ [(c, binding_fields.truncate (self m))]\<rparr>
      in case meth (heap m) of
           Return r w \<Rightarrow> Return r (m'\<lparr>heap := w\<rparr>)
         | Throw e w \<Rightarrow> Throw e (m'\<lparr>heap := w\<rparr>))"

text \<open>
  Running a block: statements in order; nothing catches, so the first statement that
  throws ends the block with its error. \<open>points\<close> lists the machine after each executed
  statement of the block.
\<close>

fun exec :: "('e, 'w) stmt list \<Rightarrow> ('e, 'w) stmt" where
  "exec [] m = Return () m"
| "exec (c # cs) m =
     (case c m of Return _ m' \<Rightarrow> exec cs m' | Throw e m' \<Rightarrow> Throw e m')"

fun points :: "('e, 'w) stmt list \<Rightarrow> ('e, 'w) machine \<Rightarrow> ('e, 'w) machine list" where
  "points [] m = []"
| "points (c # cs) m =
     (case c m of Return _ m' \<Rightarrow> m' # points cs m' | Throw e m' \<Rightarrow> [m'])"

subsection \<open>\<^verbatim>\<open>$unbind\<close>\<close>

definition unbind_stmts :: "BindingFlags \<Rightarrow> ('e, 'w) stmt list" where
  "unbind_stmts flags =
     [update_self (\<lambda>b. b\<lparr>state := state b OR isUnbinding\<rparr>),
      (\<lambda>m. let b = self m in
         case invoke (Evaluate flags (scope b) (locator b))
                (evaluate (sourceExpression b) flags (scope b) (locator b)) m of
           Throw e m' \<Rightarrow> Throw e m'
         | Return v m' \<Rightarrow>
             if v = Obj (target b)
             then invoke (Assign flags (scope b) (locator b) Null)
                    (assign (sourceExpression b) flags (scope b) (locator b) Null) m'
             else Return () m'),
      (\<lambda>m. let b = self m; sourceExpression = sourceExpression b in
         if hasUnbind sourceExpression
         then invoke (Unbind flags (scope b))
                (the (unbind sourceExpression) flags (scope b) (binding_fields.truncate b)) m
         else Return () m),
      update_self (\<lambda>b. b\<lparr>scope := Null\<rparr>),
      update_self (\<lambda>b. b\<lparr>state := state b AND NOT (isBound OR isUnbinding)\<rparr>)]"

definition Ref_unbind :: "BindingFlags \<Rightarrow> ('e, 'w) stmt" where
  "Ref_unbind flags m =
     (if state (self m) AND isBound = 0 then Return () m
      else exec (unbind_stmts flags) m)"

subsection \<open>\<^verbatim>\<open>$bind\<close>\<close>

text \<open>Lines 33 to 47: the statements after the check of \<^verbatim>\<open>isBound\<close>.\<close>

definition bind_body :: "BindingFlags \<Rightarrow> val \<Rightarrow> ('e, 'w) stmt list" where
  "bind_body flags s =
     [update_self (\<lambda>b. b\<lparr>state := state b OR isBinding\<rparr>),
      update_self (\<lambda>b. b\<lparr>scope := s\<rparr>),
      (\<lambda>m. let b = self m; sourceExpression = sourceExpression b in
         if hasBind sourceExpression
         then invoke (Bind flags s)
                (the (bind sourceExpression) flags s (binding_fields.truncate b)) m
         else Return () m),
      (\<lambda>m. let b = self m in
         invoke (Assign flags (scope b) (locator b) (Obj (target b)))
           (assign (sourceExpression b) flags (scope b) (locator b) (Obj (target b))) m),
      update_self (\<lambda>b. b\<lparr>state := state b OR isBound\<rparr>),
      update_self (\<lambda>b. b\<lparr>state := state b AND NOT isBinding\<rparr>)]"

text \<open>
  The statements one call of \<^verbatim>\<open>$bind(flags, scope)\<close> runs: none when the binding is
  bound to the identical scope (the early return), the nested \<^verbatim>\<open>this.$unbind(flags)\<close>
  first when it is bound to another scope.
\<close>

definition bind_stmts :: "BindingFlags \<Rightarrow> val \<Rightarrow> ('e, 'w) machine \<Rightarrow> ('e, 'w) stmt list" where
  "bind_stmts flags s m =
     (if state (self m) AND isBound \<noteq> 0
      then (if scope (self m) = s then [] else Ref_unbind flags # bind_body flags s)
      else bind_body flags s)"

definition Ref_bind :: "BindingFlags \<Rightarrow> val \<Rightarrow> ('e, 'w) stmt" where
  "Ref_bind flags s m = exec (bind_stmts flags s m) m"

definition Ref_bind_points ::
  "BindingFlags \<Rightarrow> val \<Rightarrow> ('e, 'w) machine \<Rightarrow> ('e, 'w) machine list" where
  "Ref_bind_points flags s m = points (bind_stmts flags s m) m"

subsection \<open>\<^verbatim>\<open>observeProperty\<close> and \<^verbatim>\<open>handleChange\<close>: empty bodies\<close>

definition observeProperty :: "val \<Rightarrow> val \<Rightarrow> ('e, 'w) stmt" where
  "observeProperty obj propertyName m = Return () m"

definition handleChange :: "val \<Rightarrow> val \<Rightarrow> BindingFlags \<Rightarrow> ('e, 'w) stmt" where
  "handleChange newValue previousValue flags m = Return () m"

subsection \<open>Observations on a run\<close>

text \<open>The expression calls made during one method call that started in machine \<open>m\<close>.\<close>

definition calls_during ::
  "('e, 'w) machine \<Rightarrow> ('e, 'r, ('e, 'w) machine) completion \<Rightarrow> (call \<times> binding_fields) list" where
  "calls_during m r = drop (length (calls m)) (calls (after r))"


text \<open>
  The bindings a program can hold when its callers pass the scopes of \<open>S\<close> to
  \<^verbatim>\<open>$bind\<close>: a constructed one, and whatever a completed \<^verbatim>\<open>$bind\<close> or \<^verbatim>\<open>$unbind\<close>
  leaves, whatever the heap was when it was called. With \<open>S = UNIV\<close> these are all
  the bindings the code can produce: \<^verbatim>\<open>$bind\<close> stores the scope unchecked, \<^verbatim>\<open>null\<close> and
  \<^verbatim>\<open>undefined\<close> included.
\<close>

inductive reachable :: "val set \<Rightarrow> ('e, 'w) Ref \<Rightarrow> bool" for S :: "val set" where
  constructed: "reachable S (new_Ref e t l)"
| bound:
    "reachable S b \<Longrightarrow> s \<in> S
       \<Longrightarrow> Ref_bind flags s \<lparr>self = b, heap = w, calls = cs\<rparr> = Return () m'
       \<Longrightarrow> reachable S (self m')"
| unbound:
    "reachable S b \<Longrightarrow> Ref_unbind flags \<lparr>self = b, heap = w, calls = cs\<rparr> = Return () m'
       \<Longrightarrow> reachable S (self m')"

text \<open>
  The contract of an assignable expression: what \<^verbatim>\<open>assign\<close> stored is what
  \<^verbatim>\<open>evaluate\<close> returns next, against the same scope.
\<close>

definition reads_back :: "('e, 'w) expression \<Rightarrow> bool" where
  "reads_back e =
     (\<forall>flags flags' sc l v w w'.
        assign e flags sc l v w = Return () w'
          \<longrightarrow> (\<exists>w''. evaluate e flags' sc l w' = Return v w''))"

subsection \<open>Sample inputs\<close>

text \<open>
  An expression to run the binding on: the access of the property \<open>name\<close> of the scope
  object. The heap gives every object its properties; reading or writing a property of
  \<^verbatim>\<open>null\<close> or \<^verbatim>\<open>undefined\<close> throws. It has no hooks.
\<close>

definition property_access :: "string \<Rightarrow> (string, obj \<Rightarrow> string \<Rightarrow> val) expression" where
  "property_access name =
     \<lparr>evaluate = (\<lambda>flags sc l w.
        case sc of Obj s \<Rightarrow> Return (w s name) w | _ \<Rightarrow> Throw ''TypeError'' w),
      assign = (\<lambda>flags sc l v w.
        case sc of Obj s \<Rightarrow> Return () (w(s := (w s)(name := v))) | _ \<Rightarrow> Throw ''TypeError'' w),
      bind = None,
      unbind = None\<rparr>"

text \<open>A new binding of \<^verbatim>\<open>el\<close> to the target \<open>t\<close>, no property set anywhere, nothing logged.\<close>

definition fresh :: "obj \<Rightarrow> (string, obj \<Rightarrow> string \<Rightarrow> val) machine" where
  "fresh t =
     \<lparr>self = new_Ref (property_access ''el'') t 99, heap = (\<lambda>_ _. Undefined), calls = []\<rparr>"

text \<open>The binding with target 10 after \<^verbatim>\<open>$bind(0, scope 1)\<close>.\<close>

definition bound_once :: "(string, obj \<Rightarrow> string \<Rightarrow> val) machine" where
  "bound_once = after (Ref_bind 0 (Obj 1) (fresh 10))"

text \<open>
  Two bindings on the same expression: B1 (target 10) is bound to scope 1, then B2
  (target 20) is bound to scope 1; \<open>self\<close> is B1 again.
\<close>

definition two_refs :: "(string, obj \<Rightarrow> string \<Rightarrow> val) machine" where
  "two_refs =
     (let m2 = after (Ref_bind 0 (Obj 1) (bound_once\<lparr>self := new_Ref (property_access ''el'') 20 99\<rparr>))
      in m2\<lparr>self := self bound_once\<rparr>)"








section \<open>Properties\<close>

subsection \<open>The bits of the lifecycle state\<close>

lemma bit_isBinding: "bit isBinding n = (n = 0)"
  by (simp add: isBinding_def bit_1_iff)

lemma bit_isBound: "bit isBound n = (n = 1)"
  using bit_exp_iff [where ?'a = "32 word" and m = 1 and n = n]
  by (auto simp add: isBound_def)

lemma bit_isUnbinding: "bit isUnbinding n = (n = 2)"
  using bit_exp_iff [where ?'a = "32 word" and m = 2 and n = n]
  by (auto simp add: isUnbinding_def)

lemma test_isBinding: "(x AND isBinding = 0) = (\<not> bit x 0)" for x :: LifecycleState
  using and_exp_eq_0_iff_not_bit [of x 0] by (simp add: isBinding_def)

lemma test_isBound: "(x AND isBound = 0) = (\<not> bit x 1)" for x :: LifecycleState
  using and_exp_eq_0_iff_not_bit [of x 1] by (simp add: isBound_def)

lemma test_isUnbinding: "(x AND isUnbinding = 0) = (\<not> bit x 2)" for x :: LifecycleState
  using and_exp_eq_0_iff_not_bit [of x 2] by (simp add: isUnbinding_def)

lemma masks_nonzero: "isBinding \<noteq> 0" "isBound \<noteq> 0" "isUnbinding \<noteq> 0"
  by (simp_all add: isBinding_def isBound_def isUnbinding_def)

lemmas state_bits =
  test_isBinding test_isBound test_isUnbinding bit_or_iff bit_and_iff bit_not_iff
  bit_isBinding bit_isBound bit_isUnbinding masks_nonzero

subsection \<open>What the two method bodies do\<close>

lemma Ref_unbind_idle: "state (self m) AND isBound = 0 \<Longrightarrow> Ref_unbind flags m = Return () m"
  by (simp add: Ref_unbind_def)

lemma unbind_stmts_Return:
  "exec (unbind_stmts flags) m = Return () m' \<Longrightarrow>
     self m' = (self m)\<lparr>state := (state (self m) OR isUnbinding) AND NOT (isBound OR isUnbinding),
                        scope := Null\<rparr>"
  by (auto simp add: unbind_stmts_def update_self_def invoke_def Let_def
      split: completion.splits if_splits)

lemma Ref_unbind_Return_unbound:
  "Ref_unbind flags m = Return () m' \<Longrightarrow> state (self m') AND isBound = 0"
  by (auto simp add: Ref_unbind_def state_bits dest!: unbind_stmts_Return split: if_splits)

lemma bind_body_Return:
  assumes "exec (bind_body flags s) m = Return () m'"
  defines "b1 \<equiv> (self m)\<lparr>state := state (self m) OR isBinding, scope := s\<rparr>"
  shows "self m' = b1\<lparr>state := (state b1 OR isBound) AND NOT isBinding\<rparr>"
    and "calls m' = calls m
           @ (if hasBind (sourceExpression (self m))
              then [(Bind flags s, binding_fields.truncate b1)] else [])
           @ [(Assign flags s (locator (self m)) (Obj (target (self m))),
               binding_fields.truncate b1)]"
    and "\<exists>w. assign (sourceExpression (self m)) flags s (locator (self m))
                (Obj (target (self m))) w = Return () (heap m')"
  using assms(1) unfolding b1_def
  by (auto simp add: bind_body_def update_self_def invoke_def Let_def
      split: completion.splits if_splits)

lemma bind_body_Throw:
  assumes "exec (bind_body flags s) m = Throw e m'"
  defines "b1 \<equiv> (self m)\<lparr>state := state (self m) OR isBinding, scope := s\<rparr>"
  shows "self m' = b1"
    and "(hasBind (sourceExpression (self m)) \<and>
          calls m' = calls m @ [(Bind flags s, binding_fields.truncate b1)] \<and>
          (\<exists>w. the (bind (sourceExpression (self m))) flags s (binding_fields.truncate b1) w
             = Throw e (heap m')))
       \<or> (calls m' = calls m
           @ (if hasBind (sourceExpression (self m))
              then [(Bind flags s, binding_fields.truncate b1)] else [])
           @ [(Assign flags s (locator (self m)) (Obj (target (self m))),
               binding_fields.truncate b1)] \<and>
          (\<exists>w. assign (sourceExpression (self m)) flags s (locator (self m))
                 (Obj (target (self m))) w = Throw e (heap m')))"
  using assms(1) unfolding b1_def
  by (auto simp add: bind_body_def update_self_def invoke_def Let_def
      split: completion.splits if_splits)

subsection \<open>The sample runs\<close>

lemma bound_once_eq:
  "Ref_bind 0 (Obj 1) (fresh 10) = Return () bound_once"
  "self bound_once = (new_Ref (property_access ''el'') 10 99)\<lparr>state := isBound, scope := Obj 1\<rparr>"
  "heap bound_once = (\<lambda>_ _. Undefined)(1 := (\<lambda>_. Undefined)(''el'' := Obj 10))"
  by (simp_all add: bound_once_def Ref_bind_def bind_stmts_def bind_body_def fresh_def new_Ref_def
      property_access_def update_self_def invoke_def hasBind_def Let_def
      none_def isBinding_def isBound_def)

lemmas run_defs =
  Ref_bind_def Ref_bind_points_def bind_stmts_def bind_body_def Ref_unbind_def unbind_stmts_def
  update_self_def invoke_def hasBind_def hasUnbind_def Let_def binding_fields.truncate_def
  new_Ref_def property_access_def none_def isBinding_def isBound_def isUnbinding_def

lemma unbind_bound_once:
  "Ref_unbind 0 bound_once = Return () (after (Ref_unbind 0 bound_once))"
  "self (after (Ref_unbind 0 bound_once)) = (new_Ref (property_access ''el'') 10 99)\<lparr>scope := Null\<rparr>"
  "heap (after (Ref_unbind 0 bound_once)) 1 ''el'' = Null"
  by (simp_all add: bound_once_def fresh_def run_defs)

lemma two_refs_eq:
  "self two_refs = (new_Ref (property_access ''el'') 10 99)\<lparr>state := isBound, scope := Obj 1\<rparr>"
  "heap two_refs = (\<lambda>_ _. Undefined)(1 := (\<lambda>_. Undefined)(''el'' := Obj 20))"
  by (simp_all add: two_refs_def bound_once_def fresh_def run_defs)

lemma reads_back_property_access: "reads_back (property_access name)"
  by (auto simp add: reads_back_def property_access_def split: val.splits)

subsection \<open>The calls a method makes, and the fields it leaves\<close>

lemma unbind_stmts_calls:
  fixes m :: "('e, 'w) machine" and flags :: BindingFlags
  defines "b \<equiv> self m"
  defines "snap \<equiv> binding_fields.truncate (b\<lparr>state := state b OR isUnbinding\<rparr>)"
  defines "r \<equiv> exec (unbind_stmts flags) m"
  shows "\<exists>xs. calls (after r) = calls m @ (Evaluate flags (scope b) (locator b), snap) # xs
           \<and> set xs \<subseteq> {(Assign flags (scope b) (locator b) Null, snap),
                         (Unbind flags (scope b), snap)}
           \<and> ((Assign flags (scope b) (locator b) Null, snap) \<in> set xs \<longleftrightarrow>
                (\<exists>w1. evaluate (sourceExpression b) flags (scope b) (locator b) (heap m)
                        = Return (Obj (target b)) w1))"
  unfolding r_def snap_def b_def
  by (auto simp add: unbind_stmts_def update_self_def invoke_def Let_def binding_fields.truncate_def
      split: completion.splits if_splits)

lemma unbind_stmts_Throw:
  assumes "exec (unbind_stmts flags) m = Throw e m'"
  shows "\<exists>cs c snap. calls m' = cs @ [(c, snap)]
           \<and> (c = Evaluate flags (scope (self m)) (locator (self m))
              \<or> c = Assign flags (scope (self m)) (locator (self m)) Null
              \<or> c = Unbind flags (scope (self m)))"
  using assms
  by (auto simp add: unbind_stmts_def update_self_def invoke_def Let_def
      split: completion.splits if_splits)

lemma Ref_unbind_Return_fields:
  assumes "Ref_unbind flags m = Return () m'"
  shows "target (self m') = target (self m)" "locator (self m') = locator (self m)"
    "sourceExpression (self m') = sourceExpression (self m)"
  using assms
  by (auto simp add: Ref_unbind_def split: if_splits dest!: unbind_stmts_Return)

lemma Ref_bind_Return_body:
  assumes "Ref_bind flags s m = Return () m'"
    and "state (self m) AND isBound = 0 \<or> scope (self m) \<noteq> s"
  shows "\<exists>m1. exec (bind_body flags s) m1 = Return () m'
           \<and> target (self m1) = target (self m) \<and> locator (self m1) = locator (self m)
           \<and> sourceExpression (self m1) = sourceExpression (self m)"
proof (cases "state (self m) AND isBound = 0")
  case True
  with assms(1) have "exec (bind_body flags s) m = Return () m'"
    by (simp add: Ref_bind_def bind_stmts_def)
  then show ?thesis by blast
next
  case False
  with assms have "(case Ref_unbind flags m of
      Return _ m1 \<Rightarrow> exec (bind_body flags s) m1 | Throw e m1 \<Rightarrow> Throw e m1) = Return () m'"
    by (simp add: Ref_bind_def bind_stmts_def)
  then obtain m1 where m1: "Ref_unbind flags m = Return () m1"
    "exec (bind_body flags s) m1 = Return () m'"
    by (cases "Ref_unbind flags m") simp_all
  from m1(2) Ref_unbind_Return_fields [OF m1(1)] show ?thesis by blast
qed

lemma Ref_bind_Return_cases:
  assumes "Ref_bind flags s m = Return () m'"
  shows "(m' = m \<and> state (self m) AND isBound \<noteq> 0 \<and> scope (self m) = s)
       \<or> (scope (self m') = s \<and> state (self m') AND isBound \<noteq> 0
           \<and> state (self m') AND isBinding = 0)"
  using assms
  by (auto simp add: Ref_bind_def bind_stmts_def state_bits
      split: if_splits completion.splits dest!: bind_body_Return(1))

lemma bind_body_calls:
  fixes m :: "('e, 'w) machine" and s :: val
  shows "\<exists>xs. calls (after (exec (bind_body flags s) m)) = calls m @ xs
           \<and> (\<forall>x \<in> set xs. state (snd x) = state (self m) OR isBinding)"
  by (auto simp add: bind_body_def update_self_def invoke_def Let_def binding_fields.truncate_def
      split: completion.splits if_splits)


lemma Ref_unbind_calls:
  fixes m :: "('e, 'w) machine" and flags :: BindingFlags
  shows "\<exists>xs. calls (after (Ref_unbind flags m)) = calls m @ xs
           \<and> (\<forall>x \<in> set xs. fst x = Evaluate flags (scope (self m)) (locator (self m))
                 \<or> fst x = Assign flags (scope (self m)) (locator (self m)) Null
                 \<or> fst x = Unbind flags (scope (self m)))"
proof (cases "state (self m) AND isBound = 0")
  case True
  then show ?thesis by (simp add: Ref_unbind_def)
next
  case False
  then have u: "Ref_unbind flags m = exec (unbind_stmts flags) m"
    by (simp add: Ref_unbind_def)
  from unbind_stmts_calls [of flags m] show ?thesis
    unfolding u by fastforce
qed

lemma Ref_bind_past_check:
  assumes "state (self m) AND isBound = 0 \<or> scope (self m) \<noteq> s"
  shows "(state (self m) AND isBound = 0 \<and> Ref_bind flags s m = exec (bind_body flags s) m
            \<and> Ref_bind_points flags s m = points (bind_body flags s) m)
       \<or> (state (self m) AND isBound \<noteq> 0 \<and>
           (\<exists>e m'. Ref_unbind flags m = Throw e m' \<and> Ref_bind flags s m = Throw e m'
                \<and> Ref_bind_points flags s m = [m']))
       \<or> (state (self m) AND isBound \<noteq> 0 \<and>
           (\<exists>m1. Ref_unbind flags m = Return () m1
                \<and> Ref_bind flags s m = exec (bind_body flags s) m1
                \<and> Ref_bind_points flags s m = m1 # points (bind_body flags s) m1))"
  using assms
  by (auto simp add: Ref_bind_def Ref_bind_points_def bind_stmts_def split: completion.splits)

subsection \<open>The lifecycle state at the points of the bind body\<close>

lemma bind_body_points:
  "\<forall>p \<in> set (points (bind_body flags s) m).
      state (self p) AND isBinding \<noteq> 0 \<or> state (self p) AND isBound \<noteq> 0"
  by (auto simp add: bind_body_def update_self_def invoke_def Let_def state_bits
      split: completion.splits if_splits)

lemma bind_body_successively:
  "successively (\<lambda>p q. state (self p) AND isBinding \<noteq> 0 \<and> state (self q) AND isBinding = 0
       \<longrightarrow> state (self p) AND isBound \<noteq> 0) (points (bind_body flags s) m)"
  by (auto simp add: bind_body_def update_self_def invoke_def Let_def state_bits
      split: completion.splits if_splits)

lemma bind_body_points_hd:
  "points (bind_body flags s) m \<noteq> []
   \<and> state (self (hd (points (bind_body flags s) m))) AND isBinding \<noteq> 0"
  by (auto simp add: bind_body_def update_self_def invoke_def Let_def state_bits
      split: completion.splits if_splits)

subsection \<open>What \<^verbatim>\<open>$unbind\<close> does with the expression\<close>



lemma unbind_stmts_assign_throws:
  fixes m :: "('e, 'w) machine" and flags :: BindingFlags
  assumes "evaluate (sourceExpression (self m)) flags (scope (self m)) (locator (self m)) (heap m)
             = Return (Obj (target (self m))) w1"
    and "assign (sourceExpression (self m)) flags (scope (self m)) (locator (self m)) Null w1
             = Throw err w2"
  shows "\<exists>m'. exec (unbind_stmts flags) m = Throw err m' \<and> heap m' = w2"
  using assms
  by (auto simp add: unbind_stmts_def update_self_def invoke_def Let_def)

lemma unbind_stmts_heap:
  fixes m :: "('e, 'w) machine" and flags :: BindingFlags
  defines "b \<equiv> self m"
  defines "e \<equiv> sourceExpression (self m)"
  defines "snap \<equiv> binding_fields.truncate ((self m)\<lparr>state := state (self m) OR isUnbinding\<rparr>)"
  assumes "evaluate e flags (scope b) (locator b) (heap m) = Return v w1"
    and "if v = Obj (target b) then assign e flags (scope b) (locator b) Null w1 = Return () w2
         else w2 = w1"
  shows "heap (after (exec (unbind_stmts flags) m))
           = (if hasUnbind e then after (the (unbind e) flags (scope b) snap w2) else w2)"
  using assms(4-5) unfolding b_def e_def snap_def
  by (auto simp add: unbind_stmts_def update_self_def invoke_def Let_def
      split: if_splits completion.splits)




subsection \<open>Claims\<close>

text \<open>
  C9. \<^verbatim>\<open>observeProperty\<close> and \<^verbatim>\<open>handleChange\<close> do nothing, whatever their arguments and
  whatever the state of the binding: they return normally and the machine (every field of
  the binding, the heap, the log of expression calls) is the one they were called in.
\<close>

theorem observeProperty_handleChange_noop:
  "observeProperty obj propertyName m = Return () m
   \<and> handleChange newValue previousValue flags m = Return () m"
  by (simp add: observeProperty_def handleChange_def)

text \<open>
  C2. A binding that is bound to scope \<open>s\<close> and is asked to bind to the identical scope
  returns at once: no statement runs, so the binding's fields, the heap (and with it the
  value the expression holds) and the log of expression calls are unchanged; in particular
  \<^verbatim>\<open>assign\<close> is not called again.
\<close>

theorem Ref_bind_same_scope:
  "state (self m) AND isBound \<noteq> 0 \<Longrightarrow> scope (self m) = s \<Longrightarrow>
     Ref_bind flags s m = Return () m \<and> Ref_bind_points flags s m = []"
  by (simp add: Ref_bind_def Ref_bind_points_def bind_stmts_def)

theorem Ref_bind_same_scope_witness:
  "state (self bound_once) AND isBound \<noteq> 0 \<and> scope (self bound_once) = Obj 1
   \<and> Ref_bind 5 (Obj 1) bound_once = Return () bound_once \<and> Ref_bind_points 5 (Obj 1) bound_once = []"
proof -
  have h1: "state (self bound_once) AND isBound \<noteq> 0"
    by (simp add: bound_once_eq masks_nonzero)
  have h2: "scope (self bound_once) = Obj 1"
    by (simp add: bound_once_eq)
  show ?thesis
    using h1 h2 Ref_bind_same_scope [OF h1 h2, of 5] by simp
qed

text \<open>
  C3. For a bound binding and a scope other than the one it is bound to,
  \<^verbatim>\<open>$bind(flags, s')\<close> completes exactly as \<^verbatim>\<open>$unbind(flags)\<close> followed by
  \<^verbatim>\<open>$bind(flags, s')\<close> does: the same completion, and in it the same binding fields
  (\<^verbatim>\<open>$state\<close>, \<^verbatim>\<open>$scope\<close>), the same heap (the value the expression holds) and the
  same expression calls. If the unbind throws, both stop there with its error.
\<close>

theorem Ref_bind_other_scope:
  "state (self m) AND isBound \<noteq> 0 \<Longrightarrow> scope (self m) \<noteq> s' \<Longrightarrow>
     Ref_bind flags s' m =
       (case Ref_unbind flags m of
          Return _ m1 \<Rightarrow> Ref_bind flags s' m1
        | Throw e m1 \<Rightarrow> Throw e m1)"
  by (auto simp add: Ref_bind_def bind_stmts_def split: completion.splits
      dest: Ref_unbind_Return_unbound)

theorem Ref_bind_other_scope_witness:
  "state (self bound_once) AND isBound \<noteq> 0 \<and> scope (self bound_once) \<noteq> Obj 2
   \<and> Ref_bind 0 (Obj 2) bound_once =
       (case Ref_unbind 0 bound_once of
          Return _ m1 \<Rightarrow> Ref_bind 0 (Obj 2) m1
        | Throw e m1 \<Rightarrow> Throw e m1)"
proof -
  have h1: "state (self bound_once) AND isBound \<noteq> 0"
    by (simp add: bound_once_eq masks_nonzero)
  have h2: "scope (self bound_once) \<noteq> Obj 2"
    by (simp add: bound_once_eq)
  show ?thesis
    using h1 h2 Ref_bind_other_scope [OF h1 h2, of 0] by simp
qed

text \<open>
  C4. \<^verbatim>\<open>$unbind\<close> on a binding that is not bound does nothing. On a newly constructed
  binding, and on a binding whose last operation was a completed \<^verbatim>\<open>$unbind\<close> (whatever
  the heap and the log have become since), it returns normally, the binding's fields are
  unchanged, the heap is unchanged and no call is added to the log: \<^verbatim>\<open>evaluate\<close>,
  \<^verbatim>\<open>assign\<close> and the unbind hook are not called.
\<close>

theorem Ref_unbind_not_bound:
  "Ref_unbind flags \<lparr>self = new_Ref e t l, heap = w, calls = cs\<rparr>
     = Return () \<lparr>self = new_Ref e t l, heap = w, calls = cs\<rparr>
   \<and> (Ref_unbind flags0 m0 = Return () m1 \<longrightarrow>
        Ref_unbind flags (m1\<lparr>heap := w, calls := cs\<rparr>)
          = Return () (m1\<lparr>heap := w, calls := cs\<rparr>))"
  by (auto simp add: new_Ref_def none_def intro!: Ref_unbind_idle dest: Ref_unbind_Return_unbound)

theorem Ref_unbind_not_bound_witness:
  "Ref_unbind 0 bound_once = Return () (after (Ref_unbind 0 bound_once))
   \<and> Ref_unbind 3 \<lparr>self = new_Ref (property_access ''el'') 10 99,
                    heap = (\<lambda>_ _. Undefined), calls = []\<rparr>
     = Return () \<lparr>self = new_Ref (property_access ''el'') 10 99,
                  heap = (\<lambda>_ _. Undefined), calls = []\<rparr>
   \<and> Ref_unbind 3 ((after (Ref_unbind 0 bound_once))\<lparr>heap := (\<lambda>_ _. Undefined), calls := []\<rparr>)
     = Return () ((after (Ref_unbind 0 bound_once))\<lparr>heap := (\<lambda>_ _. Undefined), calls := []\<rparr>)"
  using Ref_unbind_not_bound [of 3 "property_access ''el''" 10 99 "\<lambda>_ _. Undefined" "[]" 0
      bound_once "after (Ref_unbind 0 bound_once)"]
    unbind_bound_once(1)
  by simp

text \<open>
  C5, as stated, fails: the class declares \<^verbatim>\<open>$scope\<close> without an initialiser, so a newly
  constructed binding has \<^verbatim>\<open>$scope\<close> \<^verbatim>\<open>undefined\<close>, which is \<^verbatim>\<open>!== null\<close>, while
  \<^verbatim>\<open>isBound\<close> is clear.
\<close>

theorem new_Ref_scope_not_null:
  "reachable UNIV (new_Ref (property_access ''el'') 10 99)
   \<and> scope (new_Ref (property_access ''el'') 10 99) \<noteq> Null
   \<and> state (new_Ref (property_access ''el'') 10 99) AND isBound = 0"
  by (simp add: reachable.constructed) (simp add: new_Ref_def none_def)

text \<open>
  C5, amended. In every state reachable from construction by completed \<^verbatim>\<open>$bind\<close> and
  \<^verbatim>\<open>$unbind\<close> calls, whatever scopes \<open>S\<close> the \<^verbatim>\<open>$bind\<close> calls are passed: when
  \<^verbatim>\<open>isBound\<close> is clear, \<^verbatim>\<open>$scope\<close> is \<^verbatim>\<open>undefined\<close> or \<^verbatim>\<open>null\<close>; when
  \<^verbatim>\<open>isBound\<close> is set, \<^verbatim>\<open>$scope\<close> is one of the scopes passed to \<^verbatim>\<open>$bind\<close>. So when
  every \<^verbatim>\<open>$bind\<close> is passed a scope object (never \<^verbatim>\<open>null\<close> or \<^verbatim>\<open>undefined\<close>),
  \<^verbatim>\<open>$scope\<close> is a scope object if and only if the \<^verbatim>\<open>isBound\<close> bit is set.
\<close>

theorem reachable_scope_iff_isBound:
  "reachable S b \<Longrightarrow>
     (state b AND isBound = 0 \<longrightarrow> scope b = Undefined \<or> scope b = Null)
     \<and> (state b AND isBound \<noteq> 0 \<longrightarrow> scope b \<in> S)
     \<and> (S \<subseteq> range Obj \<longrightarrow> ((\<exists>s. scope b = Obj s) \<longleftrightarrow> state b AND isBound \<noteq> 0))"
proof -
  assume "reachable S b"
  then have inv: "(state b AND isBound = 0 \<longrightarrow> scope b = Undefined \<or> scope b = Null)
     \<and> (state b AND isBound \<noteq> 0 \<longrightarrow> scope b \<in> S)"
  proof (induction rule: reachable.induct)
    case (constructed e t l)
    show ?case by (simp add: new_Ref_def none_def)
  next
    case (bound b s flags w cs m')
    from Ref_bind_Return_cases [OF bound.hyps(3)] bound.IH bound.hyps(2) show ?case by auto
  next
    case (unbound b flags w cs m')
    show ?case
    proof (cases "state b AND isBound = 0")
      case True
      with unbound.hyps(2) have "m' = \<lparr>self = b, heap = w, calls = cs\<rparr>"
        by (simp add: Ref_unbind_def)
      with unbound.IH show ?thesis by simp
    next
      case False
      with unbound.hyps(2)
      have "exec (unbind_stmts flags) \<lparr>self = b, heap = w, calls = cs\<rparr> = Return () m'"
        by (simp add: Ref_unbind_def)
      from unbind_stmts_Return [OF this] show ?thesis by (simp add: state_bits)
    qed
  qed
  then show ?thesis by auto
qed

theorem reachable_scope_iff_isBound_witness:
  "reachable (range Obj) (self bound_once) \<and> range Obj \<subseteq> range Obj
   \<and> scope (self bound_once) = Obj 1 \<and> state (self bound_once) AND isBound \<noteq> 0"
proof -
  have "reachable (range Obj) (self (fresh 10))"
    by (simp add: fresh_def reachable.constructed)
  moreover have "Obj 1 \<in> range Obj" by simp
  moreover have "Ref_bind 0 (Obj 1) \<lparr>self = self (fresh 10), heap = heap (fresh 10),
      calls = calls (fresh 10)\<rparr> = Return () bound_once"
    using bound_once_eq(1) by (simp add: fresh_def)
  ultimately have r: "reachable (range Obj) (self bound_once)"
    by (rule reachable.bound)
  have s: "scope (self bound_once) = Obj 1"
    by (simp add: bound_once_eq)
  show ?thesis
    using r s reachable_scope_iff_isBound [OF r] by auto
qed




text \<open>
  C1. On a bound binding, \<^verbatim>\<open>$unbind\<close> calls \<^verbatim>\<open>assign\<close> with \<^verbatim>\<open>null\<close> if and only if
  the guard's evaluation of the expression, against the bound scope in the heap of the
  call, returns exactly the binding's target. When it does, the assignment runs on the heap
  the evaluation left: if it returns, the heap after \<^verbatim>\<open>$unbind\<close> is the one it left
  (passed through the unbind hook, if there is one); if it throws, \<^verbatim>\<open>$unbind\<close> throws
  its error. When the evaluation returns anything else, no assignment runs: the heap after
  \<^verbatim>\<open>$unbind\<close> is the one the evaluation left (passed through the hook, if any). In
  particular, when the expression evaluates to another object \<open>t2\<close> (the target another
  binding has assigned), the evaluation leaves the heap as it is and the unbind hook, if
  any, returns and leaves the expression evaluating to \<open>t2\<close>, then \<^verbatim>\<open>$unbind\<close>
  returns and the expression still evaluates to \<open>t2\<close>; with no hook the heap is
  unchanged.
\<close>

theorem Ref_unbind_guard:
  assumes bound: "state (self m) AND isBound \<noteq> 0"
  shows "(Assign flags (scope (self m)) (locator (self m)) Null
            \<in> fst ` set (calls_during m (Ref_unbind flags m))
          \<longleftrightarrow> (\<exists>w1. evaluate (sourceExpression (self m)) flags (scope (self m))
                       (locator (self m)) (heap m) = Return (Obj (target (self m))) w1))
       \<and> (\<forall>w1 w2.
            evaluate (sourceExpression (self m)) flags (scope (self m)) (locator (self m)) (heap m)
              = Return (Obj (target (self m))) w1
            \<and> assign (sourceExpression (self m)) flags (scope (self m)) (locator (self m)) Null w1
                = Return () w2
          \<longrightarrow> heap (after (Ref_unbind flags m))
                = (if hasUnbind (sourceExpression (self m))
                   then after (the (unbind (sourceExpression (self m))) flags (scope (self m))
                     (binding_fields.truncate
                        ((self m)\<lparr>state := state (self m) OR isUnbinding\<rparr>)) w2)
                   else w2))
       \<and> (\<forall>w1 err w2.
            evaluate (sourceExpression (self m)) flags (scope (self m)) (locator (self m)) (heap m)
              = Return (Obj (target (self m))) w1
            \<and> assign (sourceExpression (self m)) flags (scope (self m)) (locator (self m)) Null w1
                = Throw err w2
          \<longrightarrow> Ref_unbind flags m = Throw err (after (Ref_unbind flags m))
              \<and> heap (after (Ref_unbind flags m)) = w2)
       \<and> (\<forall>v w1.
            evaluate (sourceExpression (self m)) flags (scope (self m)) (locator (self m)) (heap m)
              = Return v w1
            \<and> v \<noteq> Obj (target (self m))
          \<longrightarrow> heap (after (Ref_unbind flags m))
                = (if hasUnbind (sourceExpression (self m))
                   then after (the (unbind (sourceExpression (self m))) flags (scope (self m))
                     (binding_fields.truncate
                        ((self m)\<lparr>state := state (self m) OR isUnbinding\<rparr>)) w1)
                   else w1))
       \<and> (\<forall>t2. t2 \<noteq> target (self m)
            \<and> evaluate (sourceExpression (self m)) flags (scope (self m)) (locator (self m)) (heap m)
                = Return (Obj t2) (heap m)
            \<and> (hasUnbind (sourceExpression (self m)) \<longrightarrow>
                 (\<exists>w'. the (unbind (sourceExpression (self m))) flags (scope (self m))
                          (binding_fields.truncate
                             ((self m)\<lparr>state := state (self m) OR isUnbinding\<rparr>)) (heap m)
                        = Return () w'
                      \<and> evaluate (sourceExpression (self m)) flags (scope (self m))
                          (locator (self m)) w' = Return (Obj t2) w'))
          \<longrightarrow> Ref_unbind flags m = Return () (after (Ref_unbind flags m))
              \<and> (\<not> hasUnbind (sourceExpression (self m))
                   \<longrightarrow> heap (after (Ref_unbind flags m)) = heap m)
              \<and> evaluate (sourceExpression (self m)) flags (scope (self m)) (locator (self m))
                  (heap (after (Ref_unbind flags m)))
                  = Return (Obj t2) (heap (after (Ref_unbind flags m))))"
proof -
  let ?b = "self m" and ?e = "sourceExpression (self m)" and ?r = "Ref_unbind flags m"
  let ?snap = "binding_fields.truncate ((self m)\<lparr>state := state (self m) OR isUnbinding\<rparr>)"
  have u: "?r = exec (unbind_stmts flags) m"
    using bound by (simp add: Ref_unbind_def)
  from unbind_stmts_calls [of flags m] obtain xs where
    xs: "calls (after ?r) = calls m @ (Evaluate flags (scope ?b) (locator ?b), ?snap) # xs"
        "set xs \<subseteq> {(Assign flags (scope ?b) (locator ?b) Null, ?snap),
                    (Unbind flags (scope ?b), ?snap)}"
        "(Assign flags (scope ?b) (locator ?b) Null, ?snap) \<in> set xs \<longleftrightarrow>
           (\<exists>w1. evaluate ?e flags (scope ?b) (locator ?b) (heap m) = Return (Obj (target ?b)) w1)"
    unfolding u by blast
  have during: "calls_during m ?r = (Evaluate flags (scope ?b) (locator ?b), ?snap) # xs"
    by (simp add: calls_during_def xs(1))
  have "Assign flags (scope ?b) (locator ?b) Null \<in> fst ` set (calls_during m ?r)
          \<longleftrightarrow> (Assign flags (scope ?b) (locator ?b) Null, ?snap) \<in> set xs"
    using xs(2) by (force simp add: during)
  with xs(3) have 1: "Assign flags (scope ?b) (locator ?b) Null \<in> fst ` set (calls_during m ?r)
      \<longleftrightarrow> (\<exists>w1. evaluate ?e flags (scope ?b) (locator ?b) (heap m) = Return (Obj (target ?b)) w1)"
    by simp
  have 2: "heap (after ?r)
             = (if hasUnbind ?e then after (the (unbind ?e) flags (scope ?b) ?snap w2) else w2)"
    if "evaluate ?e flags (scope ?b) (locator ?b) (heap m) = Return (Obj (target ?b)) w1"
      and "assign ?e flags (scope ?b) (locator ?b) Null w1 = Return () w2" for w1 w2
    unfolding u using that by (intro unbind_stmts_heap [where v = "Obj (target ?b)"]) simp_all
  have 3: "?r = Throw err (after ?r) \<and> heap (after ?r) = w2"
    if "evaluate ?e flags (scope ?b) (locator ?b) (heap m) = Return (Obj (target ?b)) w1"
      and "assign ?e flags (scope ?b) (locator ?b) Null w1 = Throw err w2" for w1 err w2
    using unbind_stmts_assign_throws [OF that] unfolding u by auto
  have 4: "heap (after ?r)
             = (if hasUnbind ?e then after (the (unbind ?e) flags (scope ?b) ?snap w1) else w1)"
    if "evaluate ?e flags (scope ?b) (locator ?b) (heap m) = Return v w1"
      and "v \<noteq> Obj (target ?b)" for v w1
    unfolding u using that by (intro unbind_stmts_heap [where v = v]) simp_all
  have 5: "?r = Return () (after ?r)
           \<and> (\<not> hasUnbind ?e \<longrightarrow> heap (after ?r) = heap m)
           \<and> evaluate ?e flags (scope ?b) (locator ?b) (heap (after ?r))
               = Return (Obj t2) (heap (after ?r))"
    if "t2 \<noteq> target ?b"
      and "evaluate ?e flags (scope ?b) (locator ?b) (heap m) = Return (Obj t2) (heap m)"
      and "hasUnbind ?e \<longrightarrow>
             (\<exists>w'. the (unbind ?e) flags (scope ?b) ?snap (heap m) = Return () w'
                  \<and> evaluate ?e flags (scope ?b) (locator ?b) w' = Return (Obj t2) w')" for t2
    using that unfolding u
    by (auto simp add: unbind_stmts_def update_self_def invoke_def Let_def)
  from 1 2 3 4 5 show ?thesis by blast
qed

theorem Ref_unbind_guard_witness:
  "state (self bound_once) AND isBound \<noteq> 0
   \<and> target (self bound_once) = 10
   \<and> evaluate (property_access ''el'') 0 (Obj 1) 99 (heap bound_once)
       = Return (Obj 10) (heap bound_once)
   \<and> Assign 0 (Obj 1) 99 Null \<in> fst ` set (calls_during bound_once (Ref_unbind 0 bound_once))
   \<and> heap (after (Ref_unbind 0 bound_once)) 1 ''el'' = Null
   \<and> state (self two_refs) AND isBound \<noteq> 0
   \<and> target (self two_refs) = 10 \<and> (20::nat) \<noteq> 10
   \<and> evaluate (property_access ''el'') 0 (Obj 1) 99 (heap two_refs) = Return (Obj 20) (heap two_refs)
   \<and> \<not> hasUnbind (property_access ''el'')
   \<and> Assign 0 (Obj 1) 99 Null \<notin> fst ` set (calls_during two_refs (Ref_unbind 0 two_refs))
   \<and> Ref_unbind 0 two_refs = Return () (after (Ref_unbind 0 two_refs))
   \<and> evaluate (property_access ''el'') 0 (Obj 1) 99 (heap (after (Ref_unbind 0 two_refs)))
       = Return (Obj 20) (heap (after (Ref_unbind 0 two_refs)))"
proof -
  have nh: "\<not> hasUnbind (property_access ''el'')"
    by (simp add: hasUnbind_def property_access_def)
  have hb: "state (self bound_once) AND isBound \<noteq> 0"
    by (simp add: bound_once_eq masks_nonzero)
  have fb: "self bound_once
      = (new_Ref (property_access ''el'') 10 99)\<lparr>state := isBound, scope := Obj 1\<rparr>"
    by (rule bound_once_eq)
  have evb: "evaluate (property_access ''el'') 0 (Obj 1) 99 (heap bound_once)
      = Return (Obj 10) (heap bound_once)"
    by (simp add: bound_once_eq property_access_def)
  have asb: "assign (property_access ''el'') 0 (Obj 1) 99 Null (heap bound_once)
      = Return () ((heap bound_once)(1 := (heap bound_once 1)(''el'' := Null)))"
    by (simp add: property_access_def)
  have fired: "target (self bound_once) = 10
     \<and> Assign 0 (Obj 1) 99 Null \<in> fst ` set (calls_during bound_once (Ref_unbind 0 bound_once))
     \<and> heap (after (Ref_unbind 0 bound_once)) 1 ''el'' = Null"
    using evb asb nh Ref_unbind_guard [OF hb, of 0]
    by (simp add: fb new_Ref_def)
  have h: "state (self two_refs) AND isBound \<noteq> 0"
    by (simp add: two_refs_eq masks_nonzero)
  have ev: "evaluate (property_access ''el'') 0 (Obj 1) 99 (heap two_refs)
      = Return (Obj 20) (heap two_refs)"
    by (simp add: two_refs_eq property_access_def)
  have f: "self two_refs
      = (new_Ref (property_access ''el'') 10 99)\<lparr>state := isBound, scope := Obj 1\<rparr>"
    by (rule two_refs_eq)
  have kept: "target (self two_refs) = 10
   \<and> Assign 0 (Obj 1) 99 Null \<notin> fst ` set (calls_during two_refs (Ref_unbind 0 two_refs))
   \<and> Ref_unbind 0 two_refs = Return () (after (Ref_unbind 0 two_refs))
   \<and> evaluate (property_access ''el'') 0 (Obj 1) 99 (heap (after (Ref_unbind 0 two_refs)))
       = Return (Obj 20) (heap (after (Ref_unbind 0 two_refs)))"
    using h ev nh Ref_unbind_guard [OF h, of 0]
    by (simp add: f new_Ref_def)
  from nh hb evb fired h ev kept show ?thesis by simp
qed

text \<open>
  C7, as stated, fails: when the binding is already bound to the scope, \<^verbatim>\<open>$bind\<close> returns
  without assigning. B1 (target 10) and then B2 (target 20) were bound to scope 1 on the
  same expression; \<^verbatim>\<open>$bind(0, scope 1)\<close> on B1 completes normally and the expression
  evaluates to B2's target.
\<close>

theorem Ref_bind_again_keeps_other_target:
  "Ref_bind 0 (Obj 1) two_refs = Return () two_refs
   \<and> target (self two_refs) = 10
   \<and> evaluate (sourceExpression (self two_refs)) 0 (Obj 1) (locator (self two_refs)) (heap two_refs)
       = Return (Obj 20) (heap two_refs)"
  by (simp add: Ref_bind_def bind_stmts_def two_refs_eq masks_nonzero)
     (simp add: new_Ref_def property_access_def)

text \<open>
  C7, amended. After a \<^verbatim>\<open>$bind(flags, s)\<close> that does not take the same-scope early
  return (the binding is not bound, or bound to another scope) completes normally, the last
  call on the expression is \<^verbatim>\<open>assign(flags, s, locator, target)\<close>, it returned, and the
  heap is the one it left; so for an expression whose \<^verbatim>\<open>evaluate\<close> returns what
  \<^verbatim>\<open>assign\<close> stored, evaluating the expression against \<open>s\<close> yields exactly the
  binding's target.
\<close>

theorem Ref_bind_assigns_target:
  assumes ret: "Ref_bind flags s m = Return () m'"
    and past: "state (self m) AND isBound = 0 \<or> scope (self m) \<noteq> s"
  shows "(\<exists>cs snap. calls m' =
            cs @ [(Assign flags s (locator (self m)) (Obj (target (self m))), snap)])
       \<and> (\<exists>w. assign (sourceExpression (self m)) flags s (locator (self m))
                 (Obj (target (self m))) w = Return () (heap m'))
       \<and> (reads_back (sourceExpression (self m)) \<longrightarrow>
            (\<exists>w'. evaluate (sourceExpression (self m)) flags' s (locator (self m)) (heap m')
                     = Return (Obj (target (self m))) w'))"
proof -
  from Ref_bind_Return_body [OF ret past]
  obtain m1 where m1: "exec (bind_body flags s) m1 = Return () m'"
    "target (self m1) = target (self m)" "locator (self m1) = locator (self m)"
    "sourceExpression (self m1) = sourceExpression (self m)"
    by blast
  from bind_body_Return(2) [OF m1(1)]
  have 1: "\<exists>cs snap. calls m' =
      cs @ [(Assign flags s (locator (self m)) (Obj (target (self m))), snap)]"
    unfolding m1(2-4) by (metis append.assoc)
  from bind_body_Return(3) [OF m1(1)]
  have 2: "\<exists>w. assign (sourceExpression (self m)) flags s (locator (self m))
                 (Obj (target (self m))) w = Return () (heap m')"
    unfolding m1(2-4) .
  from 2 have 3: "reads_back (sourceExpression (self m)) \<longrightarrow>
            (\<exists>w'. evaluate (sourceExpression (self m)) flags' s (locator (self m)) (heap m')
                     = Return (Obj (target (self m))) w')"
    unfolding reads_back_def by blast
  from 1 2 3 show ?thesis by blast
qed

theorem Ref_bind_assigns_target_witness:
  "Ref_bind 0 (Obj 1) (fresh 10) = Return () bound_once
   \<and> state (self (fresh 10)) AND isBound = 0
   \<and> reads_back (property_access ''el'')
   \<and> evaluate (property_access ''el'') 7 (Obj 1) 99 (heap bound_once)
       = Return (Obj 10) (heap bound_once)"
proof -
  have h1: "Ref_bind 0 (Obj 1) (fresh 10) = Return () bound_once"
    by (rule bound_once_eq)
  have h2: "state (self (fresh 10)) AND isBound = 0"
    by (simp add: fresh_def new_Ref_def none_def)
  have h3: "reads_back (property_access ''el'')"
    by (rule reads_back_property_access)
  have f: "sourceExpression (self (fresh 10)) = property_access ''el''"
    "locator (self (fresh 10)) = 99" "target (self (fresh 10)) = 10"
    by (simp_all add: fresh_def new_Ref_def)
  from Ref_bind_assigns_target [OF h1 disjI1 [OF h2], of 7] h3
  obtain w' where
    "evaluate (property_access ''el'') 7 (Obj 1) 99 (heap bound_once) = Return (Obj 10) w'"
    unfolding f by blast
  then have "evaluate (property_access ''el'') 7 (Obj 1) 99 (heap bound_once)
       = Return (Obj 10) (heap bound_once)"
    by (auto simp add: property_access_def)
  with h1 h2 h3 show ?thesis by simp
qed

text \<open>
  C6, as stated, fails for a call that rebinds: the binding is bound to scope 1 and
  \<^verbatim>\<open>$bind(0, scope 2)\<close> is called. The call passes the no-op check and runs seven
  statements; after the first, the nested \<^verbatim>\<open>this.$unbind(flags)\<close>, both \<^verbatim>\<open>isBinding\<close>
  and \<^verbatim>\<open>isBound\<close> are clear.
\<close>

theorem rebind_point_both_clear:
  "state (self bound_once) AND isBound \<noteq> 0 \<and> scope (self bound_once) \<noteq> Obj 2
   \<and> length (Ref_bind_points 0 (Obj 2) bound_once) = 7
   \<and> state (self (Ref_bind_points 0 (Obj 2) bound_once ! 0)) AND isBinding = 0
   \<and> state (self (Ref_bind_points 0 (Obj 2) bound_once ! 0)) AND isBound = 0"
  by (simp add: bound_once_def fresh_def run_defs)

text \<open>
  C6, amended. Within one \<^verbatim>\<open>$bind\<close> call that proceeds past the no-op check:
  every call of the expression's bind hook and every \<^verbatim>\<open>assign\<close> of the target is made
  with \<^verbatim>\<open>isBinding\<close> set; at every point from the statement that sets \<^verbatim>\<open>isBinding\<close>
  on (all points of a call on an unbound binding; all but the one after the nested
  \<^verbatim>\<open>$unbind\<close> of a rebinding call) \<^verbatim>\<open>isBinding\<close> or \<^verbatim>\<open>isBound\<close> is set;
  \<^verbatim>\<open>isBinding\<close> goes from set to clear only at a point where \<^verbatim>\<open>isBound\<close> is set
  already; and at normal return \<^verbatim>\<open>isBound\<close> is set and \<^verbatim>\<open>isBinding\<close> is clear.
\<close>

theorem Ref_bind_state_order:
  assumes past: "state (self m) AND isBound = 0 \<or> scope (self m) \<noteq> s"
  shows "(\<forall>x \<in> set (calls_during m (Ref_bind flags s m)).
             fst x = Bind flags s
             \<or> fst x = Assign flags s (locator (self m)) (Obj (target (self m)))
            \<longrightarrow> state (snd x) AND isBinding \<noteq> 0)
       \<and> (\<forall>p \<in> set (drop (if state (self m) AND isBound = 0 then 0 else 1)
                         (Ref_bind_points flags s m)).
             state (self p) AND isBinding \<noteq> 0 \<or> state (self p) AND isBound \<noteq> 0)
       \<and> successively (\<lambda>p q. state (self p) AND isBinding \<noteq> 0 \<and> state (self q) AND isBinding = 0
             \<longrightarrow> state (self p) AND isBound \<noteq> 0) (Ref_bind_points flags s m)
       \<and> (\<forall>m'. Ref_bind flags s m = Return () m' \<longrightarrow>
             state (self m') AND isBound \<noteq> 0 \<and> state (self m') AND isBinding = 0)"
proof -
  let ?work = "\<lambda>x. fst x = Bind flags s
             \<or> fst x = Assign flags s (locator (self m)) (Obj (target (self m)))"
  let ?step = "\<lambda>p q. state (self p) AND isBinding \<noteq> 0 \<and> state (self q) AND isBinding = 0
             \<longrightarrow> state (self p) AND isBound \<noteq> 0"
  have 4: "\<forall>m'. Ref_bind flags s m = Return () m' \<longrightarrow>
             state (self m') AND isBound \<noteq> 0 \<and> state (self m') AND isBinding = 0"
    using past by (auto dest!: Ref_bind_Return_cases)
  from Ref_bind_past_check [OF past, of flags]
  consider
    (new) "state (self m) AND isBound = 0" "Ref_bind flags s m = exec (bind_body flags s) m"
      "Ref_bind_points flags s m = points (bind_body flags s) m"
  | (unbind_throws) e m' where "state (self m) AND isBound \<noteq> 0" "Ref_unbind flags m = Throw e m'"
      "Ref_bind flags s m = Throw e m'" "Ref_bind_points flags s m = [m']"
  | (rebind) m1 where "state (self m) AND isBound \<noteq> 0" "Ref_unbind flags m = Return () m1"
      "Ref_bind flags s m = exec (bind_body flags s) m1"
      "Ref_bind_points flags s m = m1 # points (bind_body flags s) m1"
    by blast
  then have 123: "(\<forall>x \<in> set (calls_during m (Ref_bind flags s m)).
             ?work x \<longrightarrow> state (snd x) AND isBinding \<noteq> 0)
       \<and> (\<forall>p \<in> set (drop (if state (self m) AND isBound = 0 then 0 else 1)
                         (Ref_bind_points flags s m)).
             state (self p) AND isBinding \<noteq> 0 \<or> state (self p) AND isBound \<noteq> 0)
       \<and> successively ?step (Ref_bind_points flags s m)"
  proof cases
    case new
    from bind_body_calls [of flags s m] obtain xs where
      xs: "calls (after (exec (bind_body flags s) m)) = calls m @ xs"
      "\<forall>x \<in> set xs. state (snd x) = state (self m) OR isBinding"
      by blast
    have "calls_during m (Ref_bind flags s m) = xs"
      by (simp add: calls_during_def new(2) xs(1))
    with xs(2) have "\<forall>x \<in> set (calls_during m (Ref_bind flags s m)). state (snd x) AND isBinding \<noteq> 0"
      by (simp add: state_bits)
    with new bind_body_points [of flags s m] bind_body_successively [of flags s m]
    show ?thesis by simp
  next
    case unbind_throws
    from Ref_unbind_calls [of flags m] obtain xs where
      xs: "calls (after (Ref_unbind flags m)) = calls m @ xs"
      "\<forall>x \<in> set xs. fst x = Evaluate flags (scope (self m)) (locator (self m))
                 \<or> fst x = Assign flags (scope (self m)) (locator (self m)) Null
                 \<or> fst x = Unbind flags (scope (self m))"
      by blast
    have "calls_during m (Ref_bind flags s m) = xs"
      using xs(1) by (simp add: calls_during_def unbind_throws)
    with xs(2) have "\<forall>x \<in> set (calls_during m (Ref_bind flags s m)). \<not> ?work x"
      by auto
    with unbind_throws show ?thesis by simp
  next
    case rebind
    from Ref_unbind_calls [of flags m] obtain xs where
      xs: "calls (after (Ref_unbind flags m)) = calls m @ xs"
      "\<forall>x \<in> set xs. fst x = Evaluate flags (scope (self m)) (locator (self m))
                 \<or> fst x = Assign flags (scope (self m)) (locator (self m)) Null
                 \<or> fst x = Unbind flags (scope (self m))"
      by blast
    from bind_body_calls [of flags s m1] obtain ys where
      ys: "calls (after (exec (bind_body flags s) m1)) = calls m1 @ ys"
      "\<forall>x \<in> set ys. state (snd x) = state (self m1) OR isBinding"
      by blast
    have "calls_during m (Ref_bind flags s m) = xs @ ys"
      using xs(1) ys(1) by (simp add: calls_during_def rebind)
    moreover have "\<forall>x \<in> set xs. \<not> ?work x"
      using xs(2) by auto
    moreover have "\<forall>x \<in> set ys. state (snd x) AND isBinding \<noteq> 0"
      using ys(2) by (simp add: state_bits)
    ultimately have a: "\<forall>x \<in> set (calls_during m (Ref_bind flags s m)).
             ?work x \<longrightarrow> state (snd x) AND isBinding \<noteq> 0"
      by auto
    have c: "successively ?step (m1 # points (bind_body flags s) m1)"
      using bind_body_successively [of flags s m1] bind_body_points_hd [of flags s m1]
      by (cases "points (bind_body flags s) m1") auto
    from a c rebind bind_body_points [of flags s m1] show ?thesis by simp
  qed
  with 4 show ?thesis by blast
qed

theorem Ref_bind_state_order_witness:
  "scope (self bound_once) \<noteq> Obj 2
   \<and> Ref_bind 0 (Obj 2) bound_once = Return () (after (Ref_bind 0 (Obj 2) bound_once))
   \<and> map (\<lambda>p. state (self p)) (Ref_bind_points 0 (Obj 2) bound_once) = [0, 1, 1, 1, 1, 3, 2]
   \<and> state (self (after (Ref_bind 0 (Obj 2) bound_once))) AND isBound \<noteq> 0
   \<and> state (self (after (Ref_bind 0 (Obj 2) bound_once))) AND isBinding = 0"
proof -
  have h: "scope (self bound_once) \<noteq> Obj 2"
    by (simp add: bound_once_eq)
  have r: "Ref_bind 0 (Obj 2) bound_once = Return () (after (Ref_bind 0 (Obj 2) bound_once))"
    by (simp add: bound_once_def fresh_def run_defs)
  have p: "map (\<lambda>p. state (self p)) (Ref_bind_points 0 (Obj 2) bound_once) = [0, 1, 1, 1, 1, 3, 2]"
    by (simp add: bound_once_def fresh_def run_defs)
  from Ref_bind_state_order [OF disjI2 [OF h], of 0]
  have "\<forall>m'. Ref_bind 0 (Obj 2) bound_once = Return () m' \<longrightarrow>
          state (self m') AND isBound \<noteq> 0 \<and> state (self m') AND isBinding = 0"
    by (rule conjunct2 [THEN conjunct2, THEN conjunct2])
  with r have "state (self (after (Ref_bind 0 (Obj 2) bound_once))) AND isBound \<noteq> 0
     \<and> state (self (after (Ref_bind 0 (Obj 2) bound_once))) AND isBinding = 0"
    by blast
  with h r p show ?thesis by blast
qed




end
